theory Spec2Isabelle
  imports Complex_Main "HOL-Library.Product_Lexorder" "HOL-Library.Sublist" "HOL-Library.Multiset"
begin

section \<open>Time stamps and date offsets\<close>

text \<open>
  The module works on pandas series indexed by dates. A time stamp is a calendar date
  (year, month, day) of the proleptic Gregorian calendar; dates are compared
  lexicographically, which is chronological order. The missing time stamp \<open>NaT\<close> is
  \<open>None\<close> of \<open>timestamp option\<close>.
\<close>

type_synonym timestamp = "int \<times> int \<times> int"

definition is_leap :: "int \<Rightarrow> bool" where
  "is_leap y = (if y mod 100 = 0 then y mod 400 = 0 else y mod 4 = 0)"

definition days_in_month :: "int \<Rightarrow> int \<Rightarrow> int" where
  "days_in_month y m =
     (if m = 2 then (if is_leap y then 29 else 28)
      else if m = 4 \<or> m = 6 \<or> m = 9 \<or> m = 11 then 30 else 31)"

definition next_day :: "timestamp \<Rightarrow> timestamp" where
  "next_day t = (case t of (y, m, d) \<Rightarrow>
     if d < days_in_month y m then (y, m, d + 1)
     else if m < 12 then (y, m + 1, 1) else (y + 1, 1, 1))"

definition prev_day :: "timestamp \<Rightarrow> timestamp" where
  "prev_day t = (case t of (y, m, d) \<Rightarrow>
     if 1 < d then (y, m, d - 1)
     else if 1 < m then (y, m - 1, days_in_month y (m - 1)) else (y - 1, 12, 31))"

definition shift_days :: "int \<Rightarrow> timestamp \<Rightarrow> timestamp" where
  "shift_days k t = (if 0 \<le> k then (next_day ^^ nat k) t else (prev_day ^^ nat (- k)) t)"

definition shift_month :: "int \<Rightarrow> int \<Rightarrow> int \<Rightarrow> int \<times> int" where
  \<comment> \<open>the (year, month) that lies \<open>k\<close> months after month \<open>m\<close> of year \<open>y\<close>\<close>
  "shift_month k y m = (let t = y * 12 + m - 1 + k in (t div 12, t mod 12 + 1))"

text \<open>
  \<open>data.index.freq\<close> is a pandas offset. Two families are modelled: a multiple of one
  day (\<open>'D'\<close>, \<open>'7D'\<close>) and a multiple of one month start (\<open>'MS'\<close>). Adding \<open>n\<close> month
  starts to a date follows pandas' rolling rule: a date that is not a month start is
  first rolled onto one, which uses up one step when going backwards.
\<close>

datatype offset = Day int | MonthBegin int

fun mul_offset :: "int \<Rightarrow> offset \<Rightarrow> offset" where
  "mul_offset k (Day n) = Day (k * n)"
| "mul_offset k (MonthBegin n) = MonthBegin (k * n)"

fun neg_offset :: "offset \<Rightarrow> offset" where
  "neg_offset (Day n) = Day (- n)"
| "neg_offset (MonthBegin n) = MonthBegin (- n)"

fun add_offset :: "timestamp \<Rightarrow> offset \<Rightarrow> timestamp" where
  "add_offset t (Day n) = shift_days n t"
| "add_offset (y, m, d) (MonthBegin n) =
     (let n' = (if n \<le> 0 \<and> 1 < d then n + 1 else n);
          ym = shift_month n' y m
      in (fst ym, snd ym, 1))"

definition sub_offset :: "timestamp \<Rightarrow> offset \<Rightarrow> timestamp" where
  "sub_offset t off = add_offset t (neg_offset off)"

definition sub_DateOffset_months :: "timestamp \<Rightarrow> int \<Rightarrow> timestamp" where
  \<comment> \<open>\<open>t - pd.DateOffset(months=k)\<close>: \<open>k\<close> calendar months back, the day clipped to the
      length of the month reached\<close>
  "sub_DateOffset_months t k = (case t of (y, m, d) \<Rightarrow>
     (let ym = shift_month (- k) y m
      in (fst ym, snd ym, min d (days_in_month (fst ym) (snd ym)))))"

section \<open>Series\<close>

text \<open>
  A series is its observations in index order, each with its time stamp, and the
  frequency of its index (\<open>None\<close> when pandas has none). Observations are exact reals:
  rounding and \<open>NaN\<close> inputs are outside the model. \<open>NaN\<close> results of pandas' own
  operations (a label missing on one side of a subtraction, a rolling window that is too
  short) are \<open>None\<close> of \<open>real option\<close>.
\<close>

record series =
  obs :: "(timestamp \<times> real) list"
  freq :: "offset option"

definition index_max :: "series \<Rightarrow> timestamp option" where
  \<comment> \<open>\<open>data.index.max()\<close>; \<open>NaT\<close> for an empty index\<close>
  "index_max data = (case map fst (obs data) of [] \<Rightarrow> None | t # ts \<Rightarrow> Some (fold max ts t))"

definition loc_slice :: "series \<Rightarrow> timestamp option \<Rightarrow> timestamp option \<Rightarrow> series" where
  \<comment> \<open>\<open>data.loc[start:stop]\<close>: the observations whose label lies between the two bounds,
      both included; \<open>start = None\<close> is Python's \<open>None\<close> (no lower bound), \<open>stop = None\<close>
      is \<open>NaT\<close>, which only the empty series produces\<close>
  "loc_slice data start stop =
     data\<lparr>obs := filter (\<lambda>(t, v).
        (case start of None \<Rightarrow> True | Some s \<Rightarrow> s \<le> t) \<and>
        (case stop of None \<Rightarrow> False | Some e \<Rightarrow> t \<le> e)) (obs data)\<rparr>"

definition slice_from :: "series \<Rightarrow> int \<Rightarrow> series" where
  \<comment> \<open>\<open>data[k:]\<close> by position; a negative \<open>k\<close> counts from the end\<close>
  "slice_from data k =
     (let n = int (length (obs data));
          j = (if k < 0 then max 0 (n + k) else min k n)
      in data\<lparr>obs := drop (nat j) (obs data)\<rparr>)"

definition sub_series ::
  "(timestamp \<times> real) list \<Rightarrow> (timestamp \<times> real) list \<Rightarrow> (timestamp \<times> real option) list" where
  \<comment> \<open>\<open>a - b\<close>: aligned on the union of the labels, \<open>NaN\<close> where a label is on one side only\<close>
  "sub_series a b =
     map (\<lambda>(t, x). (t, map_option (\<lambda>y. x - y) (map_of b t))) a @
     map (\<lambda>(t, y). (t, None)) (filter (\<lambda>(t, y). map_of a t = None) b)"

definition pow2_series :: "(timestamp \<times> real option) list \<Rightarrow> (timestamp \<times> real option) list" where
  "pow2_series s = map (\<lambda>(t, v). (t, map_option (\<lambda>x. x ^ 2) v)) s"

definition sum_series :: "(timestamp \<times> real option) list \<Rightarrow> real" where
  \<comment> \<open>\<open>.sum()\<close> skips \<open>NaN\<close>\<close>
  "sum_series s = sum_list (List.map_filter snd s)"

section \<open>The statistical library\<close>

type_synonym exn = string

record sarimax_args =
  endog :: series
  order :: "nat \<times> nat \<times> nat"
  seasonal_order :: "nat \<times> nat \<times> nat \<times> nat"
  enforce_stationarity :: bool
  enforce_invertibility :: bool

text \<open>
  The numerical optimisation of statsmodels is a parameter of the model: an estimator
  maps the arguments of \<open>SARIMAX\<close> to an exception, or to the AIC of the fitted model
  and its predicted value for every observation number.
\<close>

type_synonym estimator = "sarimax_args \<Rightarrow> exn + (real \<times> (nat \<Rightarrow> real))"

record results =
  model :: sarimax_args
  nobs :: nat
  aic :: real
  predicted :: "nat \<Rightarrow> real"

definition SARIMAX_fit :: "estimator \<Rightarrow> sarimax_args \<Rightarrow> exn + results" where
  \<comment> \<open>\<open>SARIMAX(...).fit()\<close>: no model of an empty sample; \<open>nobs\<close> is the sample's length\<close>
  "SARIMAX_fit est args =
     (if obs (endog args) = [] then Inl ''ValueError''
      else case est args of
             Inl e \<Rightarrow> Inl e
           | Inr (a, f) \<Rightarrow>
               Inr \<lparr>model = args, nobs = length (obs (endog args)), aic = a, predicted = f\<rparr>)"

definition prediction_label :: "results \<Rightarrow> nat \<Rightarrow> timestamp option" where
  \<comment> \<open>the label of observation number \<open>k\<close>: the sample's own label, or, past its end, the
      index continued at the sample's frequency\<close>
  "prediction_label res k =
     (let ix = map fst (obs (endog (model res)))
      in if k < length ix then Some (ix ! k)
         else case freq (endog (model res)) of
                None \<Rightarrow> None
              | Some f \<Rightarrow>
                  if ix = [] then None
                  else Some (add_offset (last ix) (mul_offset (int (k - length ix) + 1) f)))"

definition predict :: "results \<Rightarrow> int \<Rightarrow> int \<Rightarrow> exn + (timestamp \<times> real) list" where
  \<comment> \<open>\<open>results.predict(start, end)\<close> for zero-based observation numbers: statsmodels
      returns the predictions for \<open>start\<close> up to and including \<open>end\<close>, and raises when
      \<open>end\<close> lies before \<open>start\<close>. Keys counted from the end (negative \<open>start\<close>) and an
      index without frequency are not used by this module and not modelled.\<close>
  "predict res start end =
     (if end < start then Inl ''ValueError''
      else if start < 0 then Inl ''NotModelled''
      else let ks = map nat [start..end];
               entries = map (\<lambda>k. map_option (\<lambda>t. (t, predicted res k)) (prediction_label res k)) ks
           in if None \<in> set entries then Inl ''NotModelled''
              else Inr (List.map_filter (\<lambda>x. x) entries))"

section \<open>find_optimal_pdq\<close>

definition range_0_2 :: "nat list" where
  "range_0_2 = [0..<2]"

definition pdq :: "(nat \<times> nat \<times> nat) list" where
  \<comment> \<open>\<open>list(itertools.product(p, d, q))\<close>: the rightmost component varies fastest\<close>
  "pdq = List.product range_0_2 (List.product range_0_2 range_0_2)"

definition seasonal_pdq :: "(nat \<times> nat \<times> nat \<times> nat) list" where
  "seasonal_pdq =
     map (\<lambda>x. (fst x, fst (snd x), snd (snd x), 12))
         (List.product range_0_2 (List.product range_0_2 range_0_2))"

text \<open>
  A row of the result table. The key is the formatted string
  \<open>'ARIMA{}x{}12 - AIC:{} - MSE:{}'\<close>; the model keeps its four arguments instead of
  their decimal rendering.
\<close>

datatype key = ARIMA "nat \<times> nat \<times> nat" "nat \<times> nat \<times> nat \<times> nat" real real

record row =
  key :: key
  aic :: real
  mse :: real

datatype out_line =
    Exception_in "(nat \<times> nat \<times> nat) list" "(nat \<times> nat \<times> nat \<times> nat) list"
  | Exception_text exn
  | Min_AIC "row list"
  | Min_MSE "row list"

record outcome =
  printed :: "out_line list"
  results_df :: "row list"

definition train_date_freq :: "series \<Rightarrow> int \<Rightarrow> exn + timestamp option" where
  \<comment> \<open>line 46: \<open>data.index.max() - (train_delta * data.index.freq)\<close>; multiplying an
      integer by the frequency \<open>None\<close> raises\<close>
  "train_date_freq data train_delta =
     (case freq data of
        None \<Rightarrow> Inl ''TypeError''
      | Some f \<Rightarrow> Inr (map_option (\<lambda>m. sub_offset m (mul_offset train_delta f)) (index_max data)))"

definition sarimax_call ::
  "series \<Rightarrow> timestamp option \<Rightarrow> timestamp option \<Rightarrow> nat \<times> nat \<times> nat \<Rightarrow>
   nat \<times> nat \<times> nat \<times> nat \<Rightarrow> sarimax_args" where
  \<comment> \<open>lines 56 to 60: the arguments of the \<open>SARIMAX\<close> constructor\<close>
  "sarimax_call data start_train train_date param param_seasonal =
     \<lparr>endog = loc_slice data start_train train_date,
      order = param,
      seasonal_order = param_seasonal,
      enforce_stationarity = False,
      enforce_invertibility = False\<rparr>"

definition try_prediction ::
  "estimator \<Rightarrow> series \<Rightarrow> int \<Rightarrow> timestamp option \<Rightarrow> timestamp option \<Rightarrow>
   nat \<times> nat \<times> nat \<Rightarrow> nat \<times> nat \<times> nat \<times> nat \<Rightarrow> exn + (results \<times> (timestamp \<times> real) list)" where
  \<comment> \<open>lines 56 to 62: fit, then forecast\<close>
  "try_prediction est data train_delta start_train train_date param param_seasonal =
     (case SARIMAX_fit est (sarimax_call data start_train train_date param param_seasonal) of
        Inl e \<Rightarrow> Inl e
      | Inr res \<Rightarrow>
          (case predict res (int (nobs res)) (int (nobs res) + train_delta) of
             Inl e \<Rightarrow> Inl e
           | Inr prediction \<Rightarrow> Inr (res, prediction)))"

definition try_body ::
  "estimator \<Rightarrow> series \<Rightarrow> int \<Rightarrow> timestamp option \<Rightarrow> timestamp option \<Rightarrow>
   nat \<times> nat \<times> nat \<Rightarrow> nat \<times> nat \<times> nat \<times> nat \<Rightarrow> exn + row" where
  \<comment> \<open>lines 56 to 68: the body of the \<open>try\<close>, up to the row it appends\<close>
  "try_body est data train_delta start_train train_date param param_seasonal =
     (case try_prediction est data train_delta start_train train_date param param_seasonal of
        Inl e \<Rightarrow> Inl e
      | Inr (res, prediction) \<Rightarrow>
          (let actual = slice_from data (- train_delta);
               mse = sum_series (pow2_series (sub_series prediction (obs actual)));
               result_string = ARIMA param param_seasonal (results.aic res) mse
           in Inr \<lparr>key = result_string, aic = results.aic res, mse = mse\<rparr>))"

definition loop_body ::
  "estimator \<Rightarrow> series \<Rightarrow> int \<Rightarrow> timestamp option \<Rightarrow> timestamp option \<Rightarrow>
   nat \<times> nat \<times> nat \<Rightarrow> nat \<times> nat \<times> nat \<times> nat \<Rightarrow>
   out_line list \<times> row list \<Rightarrow> out_line list \<times> row list" where
  \<comment> \<open>lines 55 to 73 on the state (lines printed so far, \<open>test_results\<close>)\<close>
  "loop_body est data train_delta start_train train_date param param_seasonal st =
     (case try_body est data train_delta start_train train_date param param_seasonal of
        Inr r \<Rightarrow> (fst st, snd st @ [r])
      | Inl e \<Rightarrow> (fst st @ [Exception_in pdq seasonal_pdq, Exception_text e], snd st))"

text \<open>
  \<open>results_df.sort_values(column)\<close> sorts the rows in ascending order of the column, with
  pandas' default algorithm, which does not promise to keep rows with equal values in
  their order. Where such rows end up is the library's choice and a parameter of the
  model, like the estimator: a tie order gives every row of a table a rank, and among rows
  with equal values the lower rank comes first, the table's own order deciding between
  equal ranks. Every ascending rearrangement of a table of distinct rows arises from some
  tie order (lemma \<open>sort_values_reaches_every_ascending_order\<close>).
\<close>

type_synonym tie_order = "(row \<Rightarrow> real) \<Rightarrow> row list \<Rightarrow> row \<Rightarrow> nat"

definition sort_values :: "tie_order \<Rightarrow> (row \<Rightarrow> real) \<Rightarrow> row list \<Rightarrow> row list" where
  "sort_values tie col df = sort_key (\<lambda>r. (col r, tie col df r)) df"

definition head :: "row list \<Rightarrow> row list" where
  \<comment> \<open>\<open>.head()\<close>: the first five rows\<close>
  "head df = take 5 df"

definition find_optimal_pdq ::
  "tie_order \<Rightarrow> estimator \<Rightarrow> series \<Rightarrow> int \<Rightarrow> timestamp option \<Rightarrow> exn + outcome" where
  "find_optimal_pdq tie est data train_delta start_train =
     (case train_date_freq data train_delta of
        Inl e \<Rightarrow> Inl e
      | Inr train_date \<Rightarrow>
          (let st = fold (\<lambda>param.
                      fold (\<lambda>param_seasonal.
                        loop_body est data train_delta start_train train_date param param_seasonal)
                        seasonal_pdq)
                      pdq ([], []);
               results_df = snd st;
               min_aic = head (sort_values tie row.aic results_df);
               min_mse = head (sort_values tie mse results_df)
           in Inr \<lparr>printed = fst st @ [Min_AIC min_aic, Min_MSE min_mse],
                   results_df = results_df\<rparr>))"

section \<open>sarimax_plot: the training sample\<close>

definition train_date_months :: "series \<Rightarrow> int \<Rightarrow> timestamp option" where
  \<comment> \<open>line 105: \<open>data.index.max() - pd.DateOffset(months=train_delta)\<close>\<close>
  "train_date_months data train_delta =
     map_option (\<lambda>m. sub_DateOffset_months m train_delta) (index_max data)"

definition sarimax_plot_endog :: "series \<Rightarrow> int \<Rightarrow> timestamp option \<Rightarrow> series" where
  \<comment> \<open>line 107: \<open>data.loc[start_date:train_date]\<close>\<close>
  "sarimax_plot_endog data train_delta start_date =
     loc_slice data start_date (train_date_months data train_delta)"

section \<open>test_stationarity: the rolling statistics\<close>

definition window_at :: "real list \<Rightarrow> nat \<Rightarrow> nat \<Rightarrow> real list" where
  \<comment> \<open>the at most \<open>w\<close> observations that end at position \<open>i\<close>\<close>
  "window_at xs w i = drop (i + 1 - w) (take (i + 1) xs)"

definition mean :: "real list \<Rightarrow> real" where
  "mean ws = sum_list ws / real (length ws)"

definition rolling_mean :: "real list \<Rightarrow> nat \<Rightarrow> real option list" where
  \<comment> \<open>\<open>timeseries.rolling(window=w).mean()\<close>, \<open>min_periods\<close> defaulting to \<open>w\<close>\<close>
  "rolling_mean xs w =
     map (\<lambda>i. let ws = window_at xs w i
              in if length ws < w then None else Some (mean ws)) [0..<length xs]"

definition rolling_var :: "real list \<Rightarrow> nat \<Rightarrow> real option list" where
  \<comment> \<open>\<open>timeseries.rolling(window=w).var()\<close>: the sample variance (\<open>ddof=1\<close>), missing for
      fewer than \<open>w\<close> or fewer than two observations\<close>
  "rolling_var xs w =
     map (\<lambda>i. let ws = window_at xs w i
              in if length ws < w \<or> length ws < 2 then None
                 else Some (sum_list (map (\<lambda>x. (x - mean ws) ^ 2) ws) / real (length ws - 1)))
         [0..<length xs]"

definition rolling_std :: "real list \<Rightarrow> nat \<Rightarrow> real option list" where
  \<comment> \<open>\<open>timeseries.rolling(window=w).std()\<close>: the square root of the rolling variance\<close>
  "rolling_std xs w = map (map_option sqrt) (rolling_var xs w)"

definition count_valid :: "real option list \<Rightarrow> nat" where
  "count_valid s = length (filter (\<lambda>v. v \<noteq> None) s)"

section \<open>Notions used in the statements\<close>

definition enumeration :: "((nat \<times> nat \<times> nat) \<times> (nat \<times> nat \<times> nat \<times> nat)) list" where
  \<comment> \<open>the pairs in the order in which the nested loops of lines 53 and 54 visit them\<close>
  "enumeration = List.product pdq seasonal_pdq"

definition row_of :: "exn + row \<Rightarrow> row option" where
  "row_of x = (case x of Inl e \<Rightarrow> None | Inr r \<Rightarrow> Some r)"

definition lines_of :: "exn + row \<Rightarrow> out_line list" where
  "lines_of x = (case x of Inl e \<Rightarrow> [Exception_in pdq seasonal_pdq, Exception_text e] | Inr r \<Rightarrow> [])"

definition key_params :: "row \<Rightarrow> (nat \<times> nat \<times> nat) \<times> (nat \<times> nat \<times> nat \<times> nat)" where
  \<comment> \<open>the pair of orders that a row's key names\<close>
  "key_params r = (case key r of ARIMA p s a m \<Rightarrow> (p, s))"

definition first_index :: "'a list \<Rightarrow> 'a \<Rightarrow> nat" where
  \<comment> \<open>the position of the first occurrence of \<open>x\<close> in \<open>xs\<close>\<close>
  "first_index xs x = length (takeWhile (\<lambda>y. y \<noteq> x) xs)"

section \<open>Example inputs\<close>

definition ex_monthly :: series where
  \<comment> \<open>six month-start observations, January to June 2020\<close>
  "ex_monthly =
     \<lparr>obs = [((2020, 1, 1), 5), ((2020, 2, 1), 5), ((2020, 3, 1), 5),
             ((2020, 4, 1), 5), ((2020, 5, 1), 1), ((2020, 6, 1), 3)],
      freq = Some (MonthBegin 1)\<rparr>"

definition est_zero :: estimator where
  \<comment> \<open>an estimator that always fits, with AIC 0, and predicts 0 everywhere\<close>
  "est_zero = (\<lambda>args. Inr (0, \<lambda>k. 0))"

definition est_raise :: estimator where
  \<comment> \<open>an estimator that never fits\<close>
  "est_raise = (\<lambda>args. Inl ''LinAlgError'')"


definition est_fail_at :: "(nat \<times> nat \<times> nat) \<times> (nat \<times> nat \<times> nat \<times> nat) \<Rightarrow> estimator" where
  \<comment> \<open>like \<open>est_zero\<close>, but failing for exactly one pair of orders\<close>
  "est_fail_at c = (\<lambda>args. if (order args, seasonal_order args) = c then Inl ''LinAlgError''
                             else Inr (0, \<lambda>k. 0))"

definition ex_daily :: series where
  \<comment> \<open>five daily observations, 1 to 5 March 2020\<close>
  "ex_daily =
     \<lparr>obs = [((2020, 3, 1), 1), ((2020, 3, 2), 2), ((2020, 3, 3), 3),
             ((2020, 3, 4), 4), ((2020, 3, 5), 5)],
      freq = Some (Day 1)\<rparr>"


definition loop_position :: "row \<Rightarrow> nat" where
  \<comment> \<open>the place of a row's pair of orders among the 64 pairs, counted from 0\<close>
  "loop_position r =
     (case key_params r of
        ((p, d, q), (P, D, Q, s)) \<Rightarrow> 32 * p + 16 * d + 8 * q + 4 * P + 2 * D + Q)"

definition ties_in_order :: tie_order where
  \<comment> \<open>the tie order of a stable sort: all rows rank equal\<close>
  "ties_in_order = (\<lambda>col df r. 0)"

definition ties_reversed :: tie_order where
  \<comment> \<open>a tie order that puts the rows of later attempts first\<close>
  "ties_reversed = (\<lambda>col df r. 63 - loop_position r)"

definition est_ranked :: estimator where
  \<comment> \<open>an estimator that fits the eight models without seasonal terms only and predicts 0;
      the later the order comes in the loop, the lower the AIC\<close>
  "est_ranked = (\<lambda>args.
     case (order args, seasonal_order args) of
       ((p, d, q), (P, D, Q, s)) \<Rightarrow>
         if P + D + Q = 0 then Inr (real (7 - (4 * p + 2 * d + q)), \<lambda>k. 0)
         else Inl ''LinAlgError'')"

section \<open>The loop as a list comprehension\<close>

lemma pdq_eq: "pdq = [(0,0,0),(0,0,1),(0,1,0),(0,1,1),(1,0,0),(1,0,1),(1,1,0),(1,1,1)]"
  by (simp add: pdq_def range_0_2_def upt_rec)

lemma seasonal_pdq_eq:
  "seasonal_pdq =
     [(0,0,0,12),(0,0,1,12),(0,1,0,12),(0,1,1,12),(1,0,0,12),(1,0,1,12),(1,1,0,12),(1,1,1,12)]"
  by (simp add: seasonal_pdq_def range_0_2_def upt_rec)

lemma length_enumeration: "length enumeration = 64"
  by (simp add: enumeration_def pdq_eq seasonal_pdq_eq)

lemma distinct_enumeration: "distinct enumeration"
  unfolding enumeration_def by (rule distinct_product) (simp_all add: pdq_eq seasonal_pdq_eq)

lemma set_map_filter: "set (List.map_filter f xs) = {y. \<exists>x\<in>set xs. f x = Some y}"
  by (induction xs) (auto split: option.splits)

lemma length_map_filter: "length (List.map_filter f xs) \<le> length xs"
  by (induction xs) (auto split: option.splits)

lemma fold_nested:
  "fold (\<lambda>x. fold (g x) ys) xs st = fold (\<lambda>xy. g (fst xy) (snd xy)) (List.product xs ys) st"
proof (induction xs arbitrary: st)
  case Nil
  show ?case by simp
next
  case (Cons x xs)
  have "fold (\<lambda>xy. g (fst xy) (snd xy)) (map (Pair x) ys) st = fold (g x) ys st"
    by (simp add: fold_map comp_def)
  with Cons show ?case by simp
qed

lemma loop_body_step:
  "loop_body est data td start tdate p s st =
     (fst st @ lines_of (try_body est data td start tdate p s),
      snd st @ (case row_of (try_body est data td start tdate p s) of None \<Rightarrow> [] | Some r \<Rightarrow> [r]))"
  by (cases "try_body est data td start tdate p s") (simp_all add: loop_body_def lines_of_def row_of_def)

lemma fold_loop_body:
  "fold (\<lambda>xy. loop_body est data td start tdate (fst xy) (snd xy)) ps st =
     (fst st @ concat (map (\<lambda>xy. lines_of (try_body est data td start tdate (fst xy) (snd xy))) ps),
      snd st @ List.map_filter (\<lambda>xy. row_of (try_body est data td start tdate (fst xy) (snd xy))) ps)"
proof (induction ps arbitrary: st)
  case Nil
  show ?case by simp
next
  case (Cons a ps)
  let ?F = "\<lambda>xy. loop_body est data td start tdate (fst xy) (snd xy)"
  have "fold ?F (a # ps) st = fold ?F ps (loop_body est data td start tdate (fst a) (snd a) st)"
    by simp
  also have "\<dots> =
     (fst (loop_body est data td start tdate (fst a) (snd a) st) @
        concat (map (\<lambda>xy. lines_of (try_body est data td start tdate (fst xy) (snd xy))) ps),
      snd (loop_body est data td start tdate (fst a) (snd a) st) @
        List.map_filter (\<lambda>xy. row_of (try_body est data td start tdate (fst xy) (snd xy))) ps)"
    by (rule Cons.IH)
  finally have unfolded: "fold ?F (a # ps) st =
     (fst (loop_body est data td start tdate (fst a) (snd a) st) @
        concat (map (\<lambda>xy. lines_of (try_body est data td start tdate (fst xy) (snd xy))) ps),
      snd (loop_body est data td start tdate (fst a) (snd a) st) @
        List.map_filter (\<lambda>xy. row_of (try_body est data td start tdate (fst xy) (snd xy))) ps)" .
  show ?case
    unfolding unfolded
    by (simp add: loop_body_step split: option.split)
qed

lemma find_optimal_pdq_eq:
  assumes "train_date_freq data td = Inr tdate"
  shows "find_optimal_pdq tie est data td start =
     Inr \<lparr>printed =
            concat (map (\<lambda>xy. lines_of (try_body est data td start tdate (fst xy) (snd xy))) enumeration)
            @ [Min_AIC (head (sort_values tie row.aic
                 (List.map_filter (\<lambda>xy. row_of (try_body est data td start tdate (fst xy) (snd xy)))
                    enumeration))),
               Min_MSE (head (sort_values tie mse
                 (List.map_filter (\<lambda>xy. row_of (try_body est data td start tdate (fst xy) (snd xy)))
                    enumeration)))],
          results_df =
            List.map_filter (\<lambda>xy. row_of (try_body est data td start tdate (fst xy) (snd xy)))
              enumeration\<rparr>"
  by (simp add: find_optimal_pdq_def assms fold_nested fold_loop_body enumeration_def Let_def)

lemma find_optimal_pdq_Inr:
  assumes "find_optimal_pdq tie est data td start = Inr out"
  obtains tdate where "train_date_freq data td = Inr tdate"
  using assms by (cases "train_date_freq data td") (auto simp: find_optimal_pdq_def)

section \<open>The example run\<close>

lemma train_date_ex_monthly: "train_date_freq ex_monthly 2 = Inr (Some (2020, 4, 1))"
  by (simp add: train_date_freq_def ex_monthly_def index_max_def sub_offset_def shift_month_def)

lemma endog_ex_monthly:
  "loc_slice ex_monthly None (Some (2020, 4, 1)) =
     \<lparr>obs = [((2020, 1, 1), 5), ((2020, 2, 1), 5), ((2020, 3, 1), 5), ((2020, 4, 1), 5)],
      freq = Some (MonthBegin 1)\<rparr>"
  by (simp add: loc_slice_def ex_monthly_def)

lemma prediction_ex_monthly:
  "try_prediction est_zero ex_monthly 2 None (Some (2020, 4, 1)) p s =
     Inr (\<lparr>model = sarimax_call ex_monthly None (Some (2020, 4, 1)) p s,
           nobs = 4, aic = 0, predicted = \<lambda>k. 0\<rparr>,
          [((2020, 5, 1), 0), ((2020, 6, 1), 0), ((2020, 7, 1), 0)])"
  by (simp add: try_prediction_def SARIMAX_fit_def sarimax_call_def endog_ex_monthly est_zero_def
        predict_def prediction_label_def upto.simps shift_month_def)

lemma try_body_ex_monthly:
  "try_body est_zero ex_monthly 2 None (Some (2020, 4, 1)) p s =
     Inr \<lparr>key = ARIMA p s 0 10, aic = 0, mse = 10\<rparr>"
  unfolding try_body_def prediction_ex_monthly
  by (simp add: slice_from_def ex_monthly_def sub_series_def pow2_series_def sum_series_def)

lemma run_ex_monthly:
  "\<exists>out. find_optimal_pdq ties_in_order est_zero ex_monthly 2 None = Inr out"
  by (simp add: find_optimal_pdq_eq [OF train_date_ex_monthly])

section \<open>The order space and the rows of the table\<close>

text \<open>
  Claim C2. The non-seasonal orders are the eight triples over \<open>{0, 1}\<close> in product
  order, the seasonal orders are the same eight triples with the period 12 appended, and
  the loops visit all 64 pairs. Whenever the training cutoff can be computed, the function
  returns a table of at most 64 rows, which are the rows of the attempts that do not raise,
  and every pair either has its row in the table or its exception among the printed lines.
\<close>

theorem order_space_and_table_rows:
  assumes "train_date_freq data td = Inr tdate"
  shows "pdq = [(0,0,0),(0,0,1),(0,1,0),(0,1,1),(1,0,0),(1,0,1),(1,1,0),(1,1,1)] \<and>
         seasonal_pdq = map (\<lambda>x. (fst x, fst (snd x), snd (snd x), 12)) pdq \<and>
         length (List.product pdq seasonal_pdq) = 64 \<and>
         (\<exists>out. find_optimal_pdq tie est data td start = Inr out \<and>
            length (results_df out) \<le> 64 \<and>
            results_df out =
              List.map_filter (\<lambda>xy. row_of (try_body est data td start tdate (fst xy) (snd xy)))
                (List.product pdq seasonal_pdq) \<and>
            (\<forall>p\<in>set pdq. \<forall>s\<in>set seasonal_pdq.
               case try_body est data td start tdate p s of
                 Inr r \<Rightarrow> r \<in> set (results_df out)
               | Inl e \<Rightarrow> Exception_text e \<in> set (printed out)))"
proof -
  let ?att = "\<lambda>xy. try_body est data td start tdate (fst xy) (snd xy)"
  let ?rows = "List.map_filter (\<lambda>xy. row_of (?att xy)) enumeration"
  let ?lines = "concat (map (\<lambda>xy. lines_of (?att xy)) enumeration)"
  let ?out = "\<lparr>printed = ?lines @ [Min_AIC (head (sort_values tie row.aic ?rows)),
                                   Min_MSE (head (sort_values tie mse ?rows))],
              results_df = ?rows\<rparr>"
  have run: "find_optimal_pdq tie est data td start = Inr ?out"
    by (rule find_optimal_pdq_eq [OF assms])
  have len: "length ?rows \<le> 64"
    using length_map_filter [of "\<lambda>xy. row_of (?att xy)" enumeration]
    by (simp add: length_enumeration)
  have each: "case try_body est data td start tdate p s of
                 Inr r \<Rightarrow> r \<in> set ?rows
               | Inl e \<Rightarrow> Exception_text e \<in> set (?lines @ [Min_AIC (head (sort_values tie row.aic ?rows)),
                                   Min_MSE (head (sort_values tie mse ?rows))])"
    if "p \<in> set pdq" "s \<in> set seasonal_pdq" for p s
  proof -
    from that have mem: "(p, s) \<in> set enumeration"
      by (simp add: enumeration_def)
    show ?thesis
    proof (cases "try_body est data td start tdate p s")
      case (Inl e)
      with mem have "Exception_text e \<in> set ?lines"
        by (force simp: lines_of_def)
      with Inl show ?thesis by simp
    next
      case (Inr r)
      with mem have "r \<in> set ?rows"
        by (force simp: set_map_filter row_of_def)
      with Inr show ?thesis by simp
    qed
  qed
  have spaces: "seasonal_pdq = map (\<lambda>x. (fst x, fst (snd x), snd (snd x), 12)) pdq"
    by (simp add: seasonal_pdq_def pdq_def)
  have outcome: "\<exists>out. find_optimal_pdq tie est data td start = Inr out \<and>
            length (results_df out) \<le> 64 \<and>
            results_df out = ?rows \<and>
            (\<forall>p\<in>set pdq. \<forall>s\<in>set seasonal_pdq.
               case try_body est data td start tdate p s of
                 Inr r \<Rightarrow> r \<in> set (results_df out)
               | Inl e \<Rightarrow> Exception_text e \<in> set (printed out))"
  proof (intro exI [of _ ?out] conjI ballI)
    show "find_optimal_pdq tie est data td start = Inr ?out" by (rule run)
    show "length (results_df ?out) \<le> 64" using len by simp
    show "results_df ?out = ?rows" by simp
    fix p s assume "p \<in> set pdq" "s \<in> set seasonal_pdq"
    from each [OF this]
    show "case try_body est data td start tdate p s of
                 Inr r \<Rightarrow> r \<in> set (results_df ?out)
               | Inl e \<Rightarrow> Exception_text e \<in> set (printed ?out)"
      by (simp split: sum.splits)
  qed
  from pdq_eq spaces length_enumeration outcome show ?thesis
    unfolding enumeration_def by blast
qed

theorem order_space_and_table_rows_witness:
  "train_date_freq ex_monthly 2 = Inr (Some (2020, 4, 1)) \<and>
   map_sum id (length \<circ> results_df) (find_optimal_pdq ties_in_order est_zero ex_monthly 2 None) = Inr 64"
proof -
  from order_space_and_table_rows [OF train_date_ex_monthly, where est = est_zero and start = None
      and tie = ties_in_order]
  obtain out where run: "find_optimal_pdq ties_in_order est_zero ex_monthly 2 None = Inr out"
    and rows: "results_df out =
      List.map_filter
        (\<lambda>xy. row_of (try_body est_zero ex_monthly 2 None (Some (2020, 4, 1)) (fst xy) (snd xy)))
        (List.product pdq seasonal_pdq)"
    by blast
  have "length (results_df out) = 64"
    unfolding rows try_body_ex_monthly
    using length_enumeration
    by (simp add: row_of_def List.map_filter_def enumeration_def)
  with run train_date_ex_monthly show ?thesis by simp
qed

section \<open>When every attempt raises\<close>

lemma length_lines_all_raise:
  assumes "\<And>x. x \<in> set xs \<Longrightarrow> \<exists>e. f x = Inl e"
  shows "length (concat (map (\<lambda>x. lines_of (f x)) xs)) = 2 * length xs"
  using assms
proof (induction xs)
  case Nil
  show ?case by simp
next
  case (Cons a xs)
  from Cons.prems [of a] obtain e where "f a = Inl e" by auto
  with Cons show ?case by (simp add: lines_of_def)
qed

text \<open>
  Claim C3. If the training cutoff is computed and each of the 64 attempts raises, the
  function returns normally: the table is empty, both printed summaries are empty, and
  what was printed before them are the two lines of each of the 64 handlers.
\<close>

theorem all_attempts_raise_empty_table:
  assumes "train_date_freq data td = Inr tdate"
    and "\<forall>p\<in>set pdq. \<forall>s\<in>set seasonal_pdq. \<exists>e. try_body est data td start tdate p s = Inl e"
  shows "\<exists>out log. find_optimal_pdq tie est data td start = Inr out \<and> results_df out = [] \<and>
           printed out = log @ [Min_AIC [], Min_MSE []] \<and> length log = 2 * 64"
proof -
  let ?att = "\<lambda>xy. try_body est data td start tdate (fst xy) (snd xy)"
  have fails: "\<exists>e. ?att xy = Inl e" if "xy \<in> set enumeration" for xy
    using that assms(2) by (auto simp: enumeration_def)
  have rows: "List.map_filter (\<lambda>xy. row_of (?att xy)) enumeration = []"
  proof -
    have "row_of (?att xy) = None" if "xy \<in> set enumeration" for xy
      using fails [OF that] by (auto simp: row_of_def)
    then show ?thesis
      by (simp add: List.map_filter_def filter_empty_conv)
  qed
  have "length (concat (map (\<lambda>xy. lines_of (?att xy)) enumeration)) = 2 * length enumeration"
    by (rule length_lines_all_raise) (use fails in blast)
  then have lines: "length (concat (map (\<lambda>xy. lines_of (?att xy)) enumeration)) = 2 * 64"
    by (simp add: length_enumeration)
  show ?thesis
    unfolding find_optimal_pdq_eq [OF assms(1)] rows
    using lines by (simp add: head_def sort_values_def)
qed

lemma try_body_est_raise:
  "try_body est_raise ex_monthly 2 None (Some (2020, 4, 1)) p s = Inl ''LinAlgError''"
  by (simp add: try_body_def try_prediction_def SARIMAX_fit_def sarimax_call_def endog_ex_monthly
        est_raise_def)

theorem all_attempts_raise_empty_table_witness:
  "train_date_freq ex_monthly 2 = Inr (Some (2020, 4, 1)) \<and>
   try_body est_raise ex_monthly 2 None (Some (2020, 4, 1)) (0, 0, 0) (0, 0, 0, 12) =
     Inl ''LinAlgError'' \<and>
   map_sum id results_df (find_optimal_pdq ties_in_order est_raise ex_monthly 2 None) = Inr []"
proof -
  have h: "\<forall>p\<in>set pdq. \<forall>s\<in>set seasonal_pdq.
      \<exists>e. try_body est_raise ex_monthly 2 None (Some (2020, 4, 1)) p s = Inl e"
    by (simp add: try_body_est_raise)
  from all_attempts_raise_empty_table [OF train_date_ex_monthly h]
  obtain out where "find_optimal_pdq ties_in_order est_raise ex_monthly 2 None = Inr out" "results_df out = []"
    by blast
  then show ?thesis
    using train_date_ex_monthly by (simp add: try_body_est_raise)
qed

section \<open>The sorted views and the printed summaries\<close>

lemma sorted_sort_values: "sorted (map col (sort_values tie col df))"
proof -
  let ?k = "\<lambda>r. (col r, tie col df r)"
  have "sorted (map ?k (sort_key ?k df))"
    by (rule sorted_sort_key)
  then have "sorted_wrt (\<lambda>x y. ?k x \<le> ?k y) (sort_key ?k df)"
    by (simp only: sorted_map)
  then have "sorted_wrt (\<lambda>x y. col x \<le> col y) (sort_key ?k df)"
    by (rule sorted_wrt_mono_rel [rotated]) auto
  then show ?thesis
    by (simp only: sorted_map sort_values_def)
qed

lemma mset_sort_values: "mset (sort_values tie col df) = mset df"
  by (simp add: sort_values_def)

lemma lowest_rows_first:
  fixes col :: "row \<Rightarrow> real"
  assumes "summary = take n (sort_values tie col df)"
  shows "length summary = min n (length df) \<and> mset summary \<subseteq># mset df \<and>
         (\<forall>r\<in>set summary. \<forall>r'\<in>#mset df - mset summary. col r \<le> col r')"
proof -
  let ?S = "sort_values tie col df"
  have split: "mset df = mset summary + mset (drop n ?S)"
    unfolding assms by (simp only: mset_sort_values [symmetric, of df tie col] mset_append [symmetric] append_take_drop_id)
  have "sorted (map col (take n ?S @ drop n ?S))"
    by (simp only: append_take_drop_id sorted_sort_values)
  then have "\<forall>r\<in>set (take n ?S). \<forall>r'\<in>set (drop n ?S). col r \<le> col r'"
    by (simp only: map_append sorted_append) auto
  moreover have "mset df - mset summary = mset (drop n ?S)"
    by (simp add: split)
  moreover have "length summary = min n (length df)"
    unfolding assms using mset_sort_values [of tie col df]
    by (metis length_take min.commute size_mset)
  moreover have "mset summary \<subseteq># mset df"
    by (simp add: split)
  ultimately show ?thesis
    by (simp add: assms)
qed

lemma run_est_ranked:
  "map_sum id (map row.aic \<circ> results_df)
     (find_optimal_pdq ties_in_order est_ranked ex_monthly 2 None) = Inr [7, 6, 5, 4, 3, 2, 1, 0] \<and>
   map_sum id (drop 112 \<circ> printed)
     (find_optimal_pdq ties_in_order est_ranked ex_monthly 2 None) =
     Inr [Min_AIC [\<lparr>key = ARIMA (1, 1, 1) (0, 0, 0, 12) 0 10, aic = 0, mse = 10\<rparr>,
                   \<lparr>key = ARIMA (1, 1, 0) (0, 0, 0, 12) 1 10, aic = 1, mse = 10\<rparr>,
                   \<lparr>key = ARIMA (1, 0, 1) (0, 0, 0, 12) 2 10, aic = 2, mse = 10\<rparr>,
                   \<lparr>key = ARIMA (1, 0, 0) (0, 0, 0, 12) 3 10, aic = 3, mse = 10\<rparr>,
                   \<lparr>key = ARIMA (0, 1, 1) (0, 0, 0, 12) 4 10, aic = 4, mse = 10\<rparr>],
          Min_MSE [\<lparr>key = ARIMA (0, 0, 0) (0, 0, 0, 12) 7 10, aic = 7, mse = 10\<rparr>,
                   \<lparr>key = ARIMA (0, 0, 1) (0, 0, 0, 12) 6 10, aic = 6, mse = 10\<rparr>,
                   \<lparr>key = ARIMA (0, 1, 0) (0, 0, 0, 12) 5 10, aic = 5, mse = 10\<rparr>,
                   \<lparr>key = ARIMA (0, 1, 1) (0, 0, 0, 12) 4 10, aic = 4, mse = 10\<rparr>,
                   \<lparr>key = ARIMA (1, 0, 0) (0, 0, 0, 12) 3 10, aic = 3, mse = 10\<rparr>]]"
  by code_simp

text \<open>
  Claim C8. For the returned table, whatever the tie order of the sort: the view sorted
  by the AIC column is a rearrangement of the table's rows that is non-decreasing in that
  column, and so is the view sorted by the MSE column in its column. The last two printed
  lines are the first five rows of the one and of the other view (all rows when the table
  has fewer than five); these are rows of the table, and no other row of the table has a
  smaller value in that column than a row of the summary.
\<close>

theorem sorted_views_and_summaries:
  assumes "find_optimal_pdq tie est data td start = Inr out"
  shows "sorted (map row.aic (sort_values tie row.aic (results_df out))) \<and>
         sorted (map mse (sort_values tie mse (results_df out))) \<and>
         mset (sort_values tie row.aic (results_df out)) = mset (results_df out) \<and>
         mset (sort_values tie mse (results_df out)) = mset (results_df out) \<and>
         (\<exists>log min_aic min_mse.
            printed out = log @ [Min_AIC min_aic, Min_MSE min_mse] \<and>
            min_aic = take 5 (sort_values tie row.aic (results_df out)) \<and>
            min_mse = take 5 (sort_values tie mse (results_df out)) \<and>
            length min_aic = min 5 (length (results_df out)) \<and>
            length min_mse = min 5 (length (results_df out)) \<and>
            mset min_aic \<subseteq># mset (results_df out) \<and>
            mset min_mse \<subseteq># mset (results_df out) \<and>
            (\<forall>r\<in>set min_aic. \<forall>r'\<in>#mset (results_df out) - mset min_aic. row.aic r \<le> row.aic r') \<and>
            (\<forall>r\<in>set min_mse. \<forall>r'\<in>#mset (results_df out) - mset min_mse. mse r \<le> mse r'))"
proof -
  from assms obtain tdate where cutoff: "train_date_freq data td = Inr tdate"
    by (rule find_optimal_pdq_Inr)
  let ?min_aic = "take 5 (sort_values tie row.aic (results_df out))"
  let ?min_mse = "take 5 (sort_values tie mse (results_df out))"
  have "\<exists>log. printed out = log @ [Min_AIC ?min_aic, Min_MSE ?min_mse]"
    using assms unfolding find_optimal_pdq_eq [OF cutoff]
    by (auto simp: head_def)
  then obtain log where log: "printed out = log @ [Min_AIC ?min_aic, Min_MSE ?min_mse]" ..
  note a = lowest_rows_first [OF refl, of 5 tie row.aic "results_df out"]
  note m = lowest_rows_first [OF refl, of 5 tie mse "results_df out"]
  have "\<exists>log min_aic min_mse.
            printed out = log @ [Min_AIC min_aic, Min_MSE min_mse] \<and>
            min_aic = ?min_aic \<and> min_mse = ?min_mse \<and>
            length min_aic = min 5 (length (results_df out)) \<and>
            length min_mse = min 5 (length (results_df out)) \<and>
            mset min_aic \<subseteq># mset (results_df out) \<and>
            mset min_mse \<subseteq># mset (results_df out) \<and>
            (\<forall>r\<in>set min_aic. \<forall>r'\<in>#mset (results_df out) - mset min_aic. row.aic r \<le> row.aic r') \<and>
            (\<forall>r\<in>set min_mse. \<forall>r'\<in>#mset (results_df out) - mset min_mse. mse r \<le> mse r')"
    using log a m by blast
  then show ?thesis
    using sorted_sort_values [of row.aic tie "results_df out"]
      sorted_sort_values [of mse tie "results_df out"]
      mset_sort_values [of tie row.aic "results_df out"]
      mset_sort_values [of tie mse "results_df out"]
    by (simp only: simp_thms)
qed

theorem sorted_views_and_summaries_witness:
  "case find_optimal_pdq ties_in_order est_ranked ex_monthly 2 None of
     Inl e \<Rightarrow> False
   | Inr out \<Rightarrow>
       map row.aic (results_df out) = [7, 6, 5, 4, 3, 2, 1, 0] \<and>
       sorted (map row.aic (sort_values ties_in_order row.aic (results_df out))) \<and>
       mset (sort_values ties_in_order row.aic (results_df out)) = mset (results_df out) \<and>
       drop 112 (printed out) =
         [Min_AIC [\<lparr>key = ARIMA (1, 1, 1) (0, 0, 0, 12) 0 10, aic = 0, mse = 10\<rparr>,
                   \<lparr>key = ARIMA (1, 1, 0) (0, 0, 0, 12) 1 10, aic = 1, mse = 10\<rparr>,
                   \<lparr>key = ARIMA (1, 0, 1) (0, 0, 0, 12) 2 10, aic = 2, mse = 10\<rparr>,
                   \<lparr>key = ARIMA (1, 0, 0) (0, 0, 0, 12) 3 10, aic = 3, mse = 10\<rparr>,
                   \<lparr>key = ARIMA (0, 1, 1) (0, 0, 0, 12) 4 10, aic = 4, mse = 10\<rparr>],
          Min_MSE [\<lparr>key = ARIMA (0, 0, 0) (0, 0, 0, 12) 7 10, aic = 7, mse = 10\<rparr>,
                   \<lparr>key = ARIMA (0, 0, 1) (0, 0, 0, 12) 6 10, aic = 6, mse = 10\<rparr>,
                   \<lparr>key = ARIMA (0, 1, 0) (0, 0, 0, 12) 5 10, aic = 5, mse = 10\<rparr>,
                   \<lparr>key = ARIMA (0, 1, 1) (0, 0, 0, 12) 4 10, aic = 4, mse = 10\<rparr>,
                   \<lparr>key = ARIMA (1, 0, 0) (0, 0, 0, 12) 3 10, aic = 3, mse = 10\<rparr>]]"
proof -
  obtain out where run: "find_optimal_pdq ties_in_order est_ranked ex_monthly 2 None = Inr out"
    by (simp add: find_optimal_pdq_eq [OF train_date_ex_monthly])
  from sorted_views_and_summaries [OF run]
  have "sorted (map row.aic (sort_values ties_in_order row.aic (results_df out)))"
    and "mset (sort_values ties_in_order row.aic (results_df out)) = mset (results_df out)"
    by blast+
  moreover from run_est_ranked
  have "map row.aic (results_df out) = [7, 6, 5, 4, 3, 2, 1, 0]"
    and "drop 112 (printed out) =
         [Min_AIC [\<lparr>key = ARIMA (1, 1, 1) (0, 0, 0, 12) 0 10, aic = 0, mse = 10\<rparr>,
                   \<lparr>key = ARIMA (1, 1, 0) (0, 0, 0, 12) 1 10, aic = 1, mse = 10\<rparr>,
                   \<lparr>key = ARIMA (1, 0, 1) (0, 0, 0, 12) 2 10, aic = 2, mse = 10\<rparr>,
                   \<lparr>key = ARIMA (1, 0, 0) (0, 0, 0, 12) 3 10, aic = 3, mse = 10\<rparr>,
                   \<lparr>key = ARIMA (0, 1, 1) (0, 0, 0, 12) 4 10, aic = 4, mse = 10\<rparr>],
          Min_MSE [\<lparr>key = ARIMA (0, 0, 0) (0, 0, 0, 12) 7 10, aic = 7, mse = 10\<rparr>,
                   \<lparr>key = ARIMA (0, 0, 1) (0, 0, 0, 12) 6 10, aic = 6, mse = 10\<rparr>,
                   \<lparr>key = ARIMA (0, 1, 0) (0, 0, 0, 12) 5 10, aic = 5, mse = 10\<rparr>,
                   \<lparr>key = ARIMA (0, 1, 1) (0, 0, 0, 12) 4 10, aic = 4, mse = 10\<rparr>,
                   \<lparr>key = ARIMA (1, 0, 0) (0, 0, 0, 12) 3 10, aic = 3, mse = 10\<rparr>]]"
    unfolding run by simp_all
  ultimately show ?thesis
    unfolding run by simp
qed

section \<open>The order of the rows\<close>

lemma first_index_nth:
  assumes "distinct xs" "i < length xs"
  shows "first_index xs (xs ! i) = i"
proof -
  have "takeWhile (\<lambda>y. y \<noteq> xs ! i) xs = take i xs"
  proof (rule takeWhile_eq_take_P_nth)
    show "\<And>j. j < i \<Longrightarrow> j < length xs \<Longrightarrow> xs ! j \<noteq> xs ! i"
      using assms by (simp add: nth_eq_iff_index_eq)
    show "i < length xs \<Longrightarrow> \<not> xs ! i \<noteq> xs ! i" by simp
  qed
  with assms show ?thesis by (simp add: first_index_def)
qed

lemma sorted_wrt_first_index:
  assumes "distinct xs"
  shows "sorted_wrt (\<lambda>a b. first_index xs a < first_index xs b) xs"
  unfolding sorted_wrt_iff_nth_less
  using assms by (simp add: first_index_nth)

lemma sort_key_unique:
  assumes "mset ys = mset xs" and "sorted (map f ys)" and "distinct (map f xs)"
  shows "sort_key f xs = ys"
proof -
  have set: "set ys = set xs"
    using assms(1) by (rule mset_eq_setD)
  have dist: "distinct (map f ys)"
    using assms(1,3) by (metis distinct_map mset_eq_imp_distinct_iff set)
  have "map f (sort_key f xs) = map f ys"
  proof (rule sorted_distinct_set_unique)
    show "sorted (map f (sort_key f xs))" by (rule sorted_sort_key)
    show "distinct (map f (sort_key f xs))"
      using assms(3) by (simp add: distinct_map)
    show "sorted (map f ys)" by (rule assms(2))
    show "distinct (map f ys)" by (rule dist)
    show "set (map f (sort_key f xs)) = set (map f ys)"
      by (simp add: set)
  qed
  moreover have "inj_on f (set (sort_key f xs) \<union> set ys)"
    using assms(3) by (simp add: distinct_map set)
  ultimately show ?thesis
    by (rule map_inj_on)
qed

lemma sorted_with_positions:
  fixes col :: "row \<Rightarrow> real"
  assumes "distinct ys" and "sorted (map col ys)"
  shows "sorted (map (\<lambda>r. (col r, first_index ys r)) ys)"
proof -
  have "(col (ys ! i), first_index ys (ys ! i)) \<le> (col (ys ! j), first_index ys (ys ! j))"
    if "i < j" "j < length ys" for i j
  proof -
    from assms(2) that have "col (ys ! i) \<le> col (ys ! j)"
      by (simp add: sorted_map sorted_wrt_iff_nth_less)
    moreover from that assms(1) have "first_index ys (ys ! i) \<le> first_index ys (ys ! j)"
      by (simp add: first_index_nth)
    ultimately show ?thesis by auto
  qed
  then show ?thesis
    by (simp add: sorted_map sorted_wrt_iff_nth_less)
qed

lemma sort_values_reaches_every_ascending_order:
  assumes "distinct df" and "mset view = mset df" and "sorted (map col view)"
  shows "sort_values (\<lambda>c d r. first_index view r) col df = view"
proof -
  have dv: "distinct view"
    using assms(1,2) by (metis mset_eq_imp_distinct_iff)
  have set: "set view = set df"
    using assms(2) by (rule mset_eq_setD)
  have "inj_on (first_index view) (set view)"
  proof (rule inj_onI)
    fix r r' assume "r \<in> set view" "r' \<in> set view" "first_index view r = first_index view r'"
    then obtain i j where "i < length view" "r = view ! i" "j < length view" "r' = view ! j"
      by (metis in_set_conv_nth)
    with dv \<open>first_index view r = first_index view r'\<close> show "r = r'"
      by (simp add: first_index_nth)
  qed
  then have "inj_on (\<lambda>r. (col r, first_index view r)) (set df)"
    unfolding set by (auto simp: inj_on_def)
  with assms(1) have "distinct (map (\<lambda>r. (col r, first_index view r)) df)"
    by (simp add: distinct_map)
  with assms(2) sorted_with_positions [OF dv assms(3)] show ?thesis
    unfolding sort_values_def by (intro sort_key_unique)
qed

lemma map_map_filter_inverse:
  assumes "\<And>x y. x \<in> set xs \<Longrightarrow> f x = Some y \<Longrightarrow> g y = x"
  shows "map g (List.map_filter f xs) = filter (\<lambda>x. f x \<noteq> None) xs"
  using assms by (induction xs) (auto split: option.splits)

lemma key_params_try_body:
  assumes "try_body est data td start tdate p s = Inr r"
  shows "key_params r = (p, s)"
  using assms
  by (auto simp: try_body_def key_params_def Let_def split: sum.splits prod.splits)

lemma sort_values_equal_ranks:
  assumes "\<forall>r\<in>set df. \<forall>r'\<in>set df. tie col df r = tie col df r'"
  shows "filter (\<lambda>r. col r = a) (sort_values tie col df) = filter (\<lambda>r. col r = a) df"
proof (cases "df = []")
  case True
  then show ?thesis by (simp add: sort_values_def)
next
  case False
  then obtain r0 where r0: "r0 \<in> set df"
    by (cases df) auto
  let ?k = "\<lambda>r. (col r, tie col df r)"
  let ?c = "tie col df r0"
  have rank: "tie col df r = ?c" if "r \<in> set df" for r
    using that assms r0 by blast
  have "filter (\<lambda>r. col r = a) (sort_key ?k df) = filter (\<lambda>r. ?k r = (a, ?c)) (sort_key ?k df)"
    by (rule filter_cong) (auto simp: rank)
  also have "\<dots> = filter (\<lambda>r. ?k r = (a, ?c)) df"
    by (rule sort_key_stable)
  also have "\<dots> = filter (\<lambda>r. col r = a) df"
    by (rule filter_cong) (auto simp: rank)
  finally show ?thesis
    by (simp only: sort_values_def)
qed

lemma rows_ex_monthly:
  assumes "find_optimal_pdq tie est_zero ex_monthly 2 None = Inr out"
  shows "results_df out =
           map (\<lambda>xy. \<lparr>key = ARIMA (fst xy) (snd xy) 0 10, aic = 0, mse = 10\<rparr>) enumeration"
  using assms unfolding find_optimal_pdq_eq [OF train_date_ex_monthly] try_body_ex_monthly
  by (auto simp: row_of_def List.map_filter_def comp_def)

lemma positions_ex_monthly:
  "map (\<lambda>r. 63 - loop_position r)
     (map (\<lambda>xy. \<lparr>key = ARIMA (fst xy) (snd xy) 0 10, aic = 0, mse = 10\<rparr>) enumeration) =
   rev [0..<64]"
  by code_simp

lemma sort_values_ties_reversed_ex_monthly:
  fixes col :: "row \<Rightarrow> real"
  assumes "rows = map (\<lambda>xy. \<lparr>key = ARIMA (fst xy) (snd xy) 0 10, aic = 0, mse = 10\<rparr>) enumeration"
    and "\<And>r. r \<in> set rows \<Longrightarrow> col r = c"
  shows "sort_values ties_reversed col rows = rev rows"
proof -
  let ?f = "\<lambda>r. (col r, ties_reversed col rows r)"
  have "map ?f rows = map (\<lambda>r. (c, 63 - loop_position r)) rows"
    by (rule map_cong) (simp_all add: assms(2) ties_reversed_def)
  also have "\<dots> = map (Pair c) (map (\<lambda>r. 63 - loop_position r) rows)"
    by (simp add: comp_def)
  also have "\<dots> = map (Pair c) (rev [0..<64])"
    by (simp only: assms(1) positions_ex_monthly)
  finally have keys: "map ?f rows = map (Pair c) (rev [0..<64])" .
  have "sorted_wrt (\<lambda>i j. (c, i) \<le> (c, j)) [0..<64::nat]"
    by (rule sorted_wrt_mono_rel [OF _ sorted_wrt_upt]) simp
  then have "sorted (map (Pair c) [0..<64::nat])"
    by (simp only: sorted_map)
  then have sorted: "sorted (map ?f (rev rows))"
    by (simp only: rev_map [symmetric] keys rev_rev_ident)
  have distinct: "distinct (map ?f rows)"
    unfolding keys by (simp add: distinct_map inj_on_def)
  show ?thesis
    unfolding sort_values_def
    by (rule sort_key_unique [OF _ sorted distinct]) simp
qed

lemma last_rows_ex_monthly:
  "take 5 (rev (map (\<lambda>xy. \<lparr>key = ARIMA (fst xy) (snd xy) 0 10, aic = 0, mse = 10\<rparr>) enumeration)) =
     [\<lparr>key = ARIMA (1, 1, 1) (1, 1, 1, 12) 0 10, aic = 0, mse = 10\<rparr>,
      \<lparr>key = ARIMA (1, 1, 1) (1, 1, 0, 12) 0 10, aic = 0, mse = 10\<rparr>,
      \<lparr>key = ARIMA (1, 1, 1) (1, 0, 1, 12) 0 10, aic = 0, mse = 10\<rparr>,
      \<lparr>key = ARIMA (1, 1, 1) (1, 0, 0, 12) 0 10, aic = 0, mse = 10\<rparr>,
      \<lparr>key = ARIMA (1, 1, 1) (0, 1, 1, 12) 0 10, aic = 0, mse = 10\<rparr>] \<and>
   map key_params
     (take 5 (map (\<lambda>xy. \<lparr>key = ARIMA (fst xy) (snd xy) 0 10, aic = 0, mse = 10\<rparr>) enumeration)) =
     [((0, 0, 0), (0, 0, 0, 12)), ((0, 0, 0), (0, 0, 1, 12)), ((0, 0, 0), (0, 1, 0, 12)),
      ((0, 0, 0), (0, 1, 1, 12)), ((0, 0, 0), (1, 0, 0, 12))]"
  by code_simp

text \<open>
  Claim C10, as stated, fails in its consequence: the sort need not keep tied rows in
  the order of the table. When all 64 attempts succeed with AIC 0 and score 10, the table
  lists them in loop order, beginning with the pair \<open>(0, 0, 0)\<close>, \<open>(0, 0, 0, 12)\<close>; under a
  tie order that puts later rows first, both summaries begin with the last row, the pair
  \<open>(1, 1, 1)\<close>, \<open>(1, 1, 1, 12)\<close>, and run backwards.
\<close>

theorem tied_rows_counterexample:
  "map_sum id (map key_params \<circ> take 5 \<circ> results_df)
     (find_optimal_pdq ties_reversed est_zero ex_monthly 2 None) =
     Inr [((0, 0, 0), (0, 0, 0, 12)), ((0, 0, 0), (0, 0, 1, 12)), ((0, 0, 0), (0, 1, 0, 12)),
          ((0, 0, 0), (0, 1, 1, 12)), ((0, 0, 0), (1, 0, 0, 12))] \<and>
   map_sum id (map row.aic \<circ> results_df)
     (find_optimal_pdq ties_reversed est_zero ex_monthly 2 None) = Inr (replicate 64 0) \<and>
   map_sum id printed (find_optimal_pdq ties_reversed est_zero ex_monthly 2 None) =
     Inr [Min_AIC [\<lparr>key = ARIMA (1, 1, 1) (1, 1, 1, 12) 0 10, aic = 0, mse = 10\<rparr>,
                   \<lparr>key = ARIMA (1, 1, 1) (1, 1, 0, 12) 0 10, aic = 0, mse = 10\<rparr>,
                   \<lparr>key = ARIMA (1, 1, 1) (1, 0, 1, 12) 0 10, aic = 0, mse = 10\<rparr>,
                   \<lparr>key = ARIMA (1, 1, 1) (1, 0, 0, 12) 0 10, aic = 0, mse = 10\<rparr>,
                   \<lparr>key = ARIMA (1, 1, 1) (0, 1, 1, 12) 0 10, aic = 0, mse = 10\<rparr>],
          Min_MSE [\<lparr>key = ARIMA (1, 1, 1) (1, 1, 1, 12) 0 10, aic = 0, mse = 10\<rparr>,
                   \<lparr>key = ARIMA (1, 1, 1) (1, 1, 0, 12) 0 10, aic = 0, mse = 10\<rparr>,
                   \<lparr>key = ARIMA (1, 1, 1) (1, 0, 1, 12) 0 10, aic = 0, mse = 10\<rparr>,
                   \<lparr>key = ARIMA (1, 1, 1) (1, 0, 0, 12) 0 10, aic = 0, mse = 10\<rparr>,
                   \<lparr>key = ARIMA (1, 1, 1) (0, 1, 1, 12) 0 10, aic = 0, mse = 10\<rparr>]]"
proof -
  let ?rows = "map (\<lambda>xy. \<lparr>key = ARIMA (fst xy) (snd xy) 0 10, aic = 0, mse = 10\<rparr>) enumeration"
  have aic: "sort_values ties_reversed row.aic ?rows = rev ?rows"
    by (rule sort_values_ties_reversed_ex_monthly [OF refl, where c = 0]) auto
  have mse: "sort_values ties_reversed mse ?rows = rev ?rows"
    by (rule sort_values_ties_reversed_ex_monthly [OF refl, where c = 10]) auto
  have rows: "List.map_filter
      (\<lambda>xy. row_of (try_body est_zero ex_monthly 2 None (Some (2020, 4, 1)) (fst xy) (snd xy)))
      enumeration = ?rows"
    unfolding try_body_ex_monthly by (simp add: row_of_def List.map_filter_def comp_def)
  have lines: "concat (map
      (\<lambda>xy. lines_of (try_body est_zero ex_monthly 2 None (Some (2020, 4, 1)) (fst xy) (snd xy)))
      enumeration) = []"
    unfolding try_body_ex_monthly by (simp add: lines_of_def)
  have run: "find_optimal_pdq ties_reversed est_zero ex_monthly 2 None =
      Inr \<lparr>printed = [Min_AIC (take 5 (rev ?rows)), Min_MSE (take 5 (rev ?rows))],
           results_df = ?rows\<rparr>"
    unfolding find_optimal_pdq_eq [OF train_date_ex_monthly] rows lines head_def aic mse
    by simp
  have all_aic: "map row.aic ?rows = replicate 64 0"
    using length_enumeration by (simp add: comp_def map_replicate_const)
  show ?thesis
    unfolding run using last_rows_ex_monthly all_aic
    by (simp add: take_map)
qed

text \<open>
  Claim C10, amended. The rows of the returned table stand in enumeration order: the
  pairs of orders named by their keys form a subsequence of the 64 pairwise distinct pairs
  as the nested loops visit them, so of two rows the earlier one belongs to the pair
  visited earlier. Rows with equal values keep this order in a sorted view when the tie
  order ranks all rows of the table alike, as a stable sort does; otherwise their order is
  the tie order's.
\<close>

theorem rows_in_enumeration_order:
  assumes "find_optimal_pdq tie est data td start = Inr out"
  shows "distinct (List.product pdq seasonal_pdq) \<and>
         subseq (map key_params (results_df out)) (List.product pdq seasonal_pdq) \<and>
         (\<forall>i j. i < j \<and> j < length (results_df out) \<longrightarrow>
            first_index (List.product pdq seasonal_pdq) (key_params (results_df out ! i))
              < first_index (List.product pdq seasonal_pdq) (key_params (results_df out ! j))) \<and>
         ((\<forall>r\<in>set (results_df out). \<forall>r'\<in>set (results_df out).
              tie row.aic (results_df out) r = tie row.aic (results_df out) r') \<longrightarrow>
          (\<forall>a. filter (\<lambda>r. row.aic r = a) (sort_values tie row.aic (results_df out)) =
                filter (\<lambda>r. row.aic r = a) (results_df out))) \<and>
         ((\<forall>r\<in>set (results_df out). \<forall>r'\<in>set (results_df out).
              tie mse (results_df out) r = tie mse (results_df out) r') \<longrightarrow>
          (\<forall>m. filter (\<lambda>r. mse r = m) (sort_values tie mse (results_df out)) =
                filter (\<lambda>r. mse r = m) (results_df out)))"
proof -
  from assms obtain tdate where cutoff: "train_date_freq data td = Inr tdate"
    by (rule find_optimal_pdq_Inr)
  let ?f = "\<lambda>xy. row_of (try_body est data td start tdate (fst xy) (snd xy))"
  have rows: "results_df out = List.map_filter ?f enumeration"
    using assms unfolding find_optimal_pdq_eq [OF cutoff] by auto
  have params: "map key_params (results_df out) = filter (\<lambda>xy. ?f xy \<noteq> None) enumeration"
    unfolding rows
  proof (rule map_map_filter_inverse)
    fix xy r assume "?f xy = Some r"
    then have "try_body est data td start tdate (fst xy) (snd xy) = Inr r"
      by (simp add: row_of_def split: sum.splits)
    then show "key_params r = xy"
      by (simp add: key_params_try_body)
  qed
  have sub: "subseq (map key_params (results_df out)) enumeration"
    unfolding params by simp
  have "sorted_wrt (\<lambda>a b. first_index enumeration a < first_index enumeration b)
          (map key_params (results_df out))"
    unfolding params
    by (rule sorted_wrt_filter) (rule sorted_wrt_first_index [OF distinct_enumeration])
  then have order: "\<forall>i j. i < j \<and> j < length (results_df out) \<longrightarrow>
            first_index enumeration (key_params (results_df out ! i))
              < first_index enumeration (key_params (results_df out ! j))"
    by (auto simp: sorted_wrt_iff_nth_less)
  from distinct_enumeration sub order
    sort_values_equal_ranks [of "results_df out" tie row.aic]
    sort_values_equal_ranks [of "results_df out" tie mse]
  show ?thesis
    unfolding enumeration_def by blast
qed

theorem rows_in_enumeration_order_witness:
  "map_sum id (map key_params \<circ> results_df)
     (find_optimal_pdq ties_in_order est_zero ex_monthly 2 None) =
     Inr (List.product pdq seasonal_pdq) \<and>
   map_sum id (map key_params \<circ> sort_values ties_in_order row.aic \<circ> results_df)
     (find_optimal_pdq ties_in_order est_zero ex_monthly 2 None) =
     Inr (List.product pdq seasonal_pdq)"
proof -
  from run_ex_monthly obtain out
    where run: "find_optimal_pdq ties_in_order est_zero ex_monthly 2 None = Inr out"
    by blast
  note rows = rows_ex_monthly [OF run]
  have ranks: "\<forall>r\<in>set (results_df out). \<forall>r'\<in>set (results_df out).
      ties_in_order row.aic (results_df out) r = ties_in_order row.aic (results_df out) r'"
    by (simp add: ties_in_order_def)
  have all: "filter (\<lambda>r. row.aic r = 0) xs = xs" if "xs = sort_values ties_in_order row.aic (results_df out) \<or> xs = results_df out" for xs
  proof -
    have "set xs = set (results_df out)"
      using that by (auto simp: sort_values_def)
    then have "\<forall>r\<in>set xs. row.aic r = 0"
      by (auto simp: rows)
    then show ?thesis by simp
  qed
  from rows_in_enumeration_order [OF run] ranks
  have "filter (\<lambda>r. row.aic r = 0) (sort_values ties_in_order row.aic (results_df out)) =
        filter (\<lambda>r. row.aic r = 0) (results_df out)"
    by blast
  then have same: "sort_values ties_in_order row.aic (results_df out) = results_df out"
    by (simp add: all)
  have "map key_params (results_df out) = List.product pdq seasonal_pdq"
    unfolding rows by (simp add: key_params_def comp_def enumeration_def map_idI)
  with run same show ?thesis by simp
qed

section \<open>The largest label and the estimator\<close>

lemma index_max_eq_Max:
  assumes "obs data \<noteq> []"
  shows "index_max data = Some (Max (fst ` set (obs data)))"
proof -
  from assms obtain a xs where "obs data = a # xs" by (cases "obs data") auto
  then show ?thesis
    by (simp add: index_max_def Max.set_eq_fold [symmetric])
qed

lemma index_max_in_index:
  assumes "index_max data = Some m"
  shows "m \<in> fst ` set (obs data)"
proof -
  from assms have ne: "obs data \<noteq> []"
    by (auto simp: index_max_def)
  with assms have "m = Max (fst ` set (obs data))"
    by (simp add: index_max_eq_Max)
  moreover have "Max (fst ` set (obs data)) \<in> fst ` set (obs data)"
    using ne by (intro Max_in) auto
  ultimately show ?thesis by simp
qed



section \<open>The cutoff of sarimax_plot\<close>

lemma days_in_month_ge: "28 \<le> days_in_month y m"
  by (simp add: days_in_month_def)

text \<open>
  Claim C6, as stated, fails: \<open>sarimax_plot\<close> subtracts calendar months, \<open>find_optimal_pdq\<close>
  steps of the index frequency. For five daily observations and \<open>train_delta = 1\<close> the
  search trains up to 4 March, the plot up to 5 February, which leaves it no observation.
\<close>

theorem daily_cutoffs_differ:
  "train_date_freq ex_daily 1 = Inr (Some (2020, 3, 4)) \<and>
   train_date_months ex_daily 1 = Some (2020, 2, 5) \<and>
   obs (endog (sarimax_call ex_daily None (Some (2020, 3, 4)) (0, 0, 0) (0, 0, 0, 12))) =
     [((2020, 3, 1), 1), ((2020, 3, 2), 2), ((2020, 3, 3), 3), ((2020, 3, 4), 4)] \<and>
   obs (sarimax_plot_endog ex_daily 1 None) = []"
  by code_simp

text \<open>
  Claim C6, amended. For a series of month-start frequency with step one, all labels
  first days of a month, both functions compute the same cutoff and train on the same
  observations.
\<close>

theorem month_start_cutoffs_agree:
  assumes "freq data = Some (MonthBegin 1)"
    and "\<forall>t\<in>fst ` set (obs data). snd (snd t) = 1"
  shows "train_date_freq data td = Inr (train_date_months data td) \<and>
         endog (sarimax_call data start (train_date_months data td) p s) =
           sarimax_plot_endog data td start"
proof -
  have "sub_offset m (mul_offset td (MonthBegin 1)) = sub_DateOffset_months m td"
    if "index_max data = Some m" for m
  proof -
    from index_max_in_index [OF that] assms(2) have day: "snd (snd m) = 1" by blast
    obtain y mo d where m: "m = (y, mo, d)" by (cases m) auto
    with day have "d = 1" by simp
    moreover have "min 1 (days_in_month y' m') = 1" for y' m'
      using days_in_month_ge [of y' m'] by simp
    ultimately show ?thesis
      by (simp add: m sub_offset_def sub_DateOffset_months_def Let_def)
  qed
  then have "train_date_freq data td = Inr (train_date_months data td)"
    using assms(1)
    by (cases "index_max data") (simp_all add: train_date_freq_def train_date_months_def)
  then show ?thesis
    by (simp add: sarimax_call_def sarimax_plot_endog_def)
qed

theorem month_start_cutoffs_agree_witness:
  "freq ex_monthly = Some (MonthBegin 1) \<and>
   map (snd \<circ> snd \<circ> fst) (obs ex_monthly) = [1, 1, 1, 1, 1, 1] \<and>
   train_date_freq ex_monthly 2 = Inr (Some (2020, 4, 1)) \<and>
   train_date_months ex_monthly 2 = Some (2020, 4, 1)"
proof -
  have h1: "freq ex_monthly = Some (MonthBegin 1)"
    and h2: "\<forall>t\<in>fst ` set (obs ex_monthly). snd (snd t) = 1"
    by (simp_all add: ex_monthly_def)
  have days: "map (snd \<circ> snd \<circ> fst) (obs ex_monthly) = [1, 1, 1, 1, 1, 1]"
    by (simp add: ex_monthly_def)
  from month_start_cutoffs_agree [OF h1 h2, of 2] train_date_ex_monthly h1 days
  show ?thesis by simp
qed

section \<open>The length of the forecast\<close>

lemma map_nat_upto:
  assumes "0 \<le> td"
  shows "map nat [int n..int n + td] = [n..<n + nat td + 1]"
proof (rule nth_equalityI)
  show "length (map nat [int n..int n + td]) = length [n..<n + nat td + 1]"
    using assms by simp
next
  fix i assume "i < length (map nat [int n..int n + td])"
  with assms have i: "int i \<le> td" by simp
  then have "[int n..int n + td] ! i = int n + int i"
    by (intro nth_upto) simp
  moreover have "[n..<n + nat td + 1] ! i = n + i"
    using i assms by (intro nth_upt) linarith
  ultimately show "map nat [int n..int n + td] ! i = [n..<n + nat td + 1] ! i"
    using i assms by (simp add: nat_add_distrib)
qed

lemma SARIMAX_fit_Inr:
  assumes "SARIMAX_fit est args = Inr res"
  shows "obs (endog args) \<noteq> [] \<and> model res = args \<and> nobs res = length (obs (endog args))"
  using assms by (auto simp: SARIMAX_fit_def split: if_splits sum.splits prod.splits)

lemma prediction_label_beyond:
  assumes "length (obs (endog (model res))) \<le> k" "freq (endog (model res)) = Some f"
    "obs (endog (model res)) \<noteq> []"
  shows "prediction_label res k =
           Some (add_offset (fst (last (obs (endog (model res)))))
                   (mul_offset (int (k - length (obs (endog (model res)))) + 1) f))"
  using assms by (simp add: prediction_label_def Let_def last_map)

lemma prediction_label_no_freq:
  assumes "length (obs (endog (model res))) \<le> k" "freq (endog (model res)) = None"
  shows "prediction_label res k = None"
  using assms by (simp add: prediction_label_def Let_def)

lemma map_filter_Some: "List.map_filter (\<lambda>x. x) (map (\<lambda>k. Some (g k)) ks) = map g ks"
  by (induction ks) simp_all

lemma predict_out_of_sample:
  assumes "predict res (int (nobs res)) (int (nobs res) + td) = Inr prediction"
    and "nobs res = length (obs (endog (model res)))" and "obs (endog (model res)) \<noteq> []"
  shows "0 \<le> td \<and>
         (\<exists>f. freq (endog (model res)) = Some f \<and>
            prediction = map (\<lambda>k. (add_offset (fst (last (obs (endog (model res)))))
                                      (mul_offset (int (k - nobs res) + 1) f), predicted res k))
                           [nobs res..<nobs res + nat td + 1])"
proof -
  from assms(1) have td: "0 \<le> td"
    by (auto simp: predict_def split: if_splits)
  let ?ks = "[nobs res..<nobs res + nat td + 1]"
  let ?entries = "map (\<lambda>k. map_option (\<lambda>t. (t, predicted res k)) (prediction_label res k)) ?ks"
  have "\<not> int (nobs res) + td < int (nobs res)" "\<not> int (nobs res) < 0"
    using td by simp_all
  with assms(1) have "(if None \<in> set ?entries then Inl ''NotModelled''
                       else Inr (List.map_filter (\<lambda>x. x) ?entries)) = Inr prediction"
    unfolding predict_def Let_def map_nat_upto [OF td] by (simp only: if_False)
  then have none: "None \<notin> set ?entries" and pred: "prediction = List.map_filter (\<lambda>x. x) ?entries"
    by (auto split: if_splits)
  have "freq (endog (model res)) \<noteq> None"
  proof
    assume "freq (endog (model res)) = None"
    then have "prediction_label res (nobs res) = None"
      using assms(2) by (intro prediction_label_no_freq) simp_all
    moreover have "nobs res \<in> set ?ks" by (simp only: set_upt atLeastLessThan_iff) linarith
    ultimately have "None \<in> set ?entries" by force
    with none show False by contradiction
  qed
  then obtain f where f: "freq (endog (model res)) = Some f" by auto
  have entries: "?entries = map (\<lambda>k. Some (add_offset (fst (last (obs (endog (model res)))))
                                      (mul_offset (int (k - nobs res) + 1) f), predicted res k)) ?ks"
  proof (intro map_cong refl)
    fix k assume "k \<in> set ?ks"
    then have "nobs res \<le> k"
      by (simp only: set_upt atLeastLessThan_iff)
    then have "length (obs (endog (model res))) \<le> k"
      by (simp only: assms(2))
    from prediction_label_beyond [OF this f assms(3)]
    show "map_option (\<lambda>t. (t, predicted res k)) (prediction_label res k) =
          Some (add_offset (fst (last (obs (endog (model res)))))
                  (mul_offset (int (k - nobs res) + 1) f), predicted res k)"
      by (simp add: assms(2))
  qed
  have "prediction = map (\<lambda>k. (add_offset (fst (last (obs (endog (model res)))))
                                      (mul_offset (int (k - nobs res) + 1) f), predicted res k)) ?ks"
    unfolding pred entries by (rule map_filter_Some)
  with f td show ?thesis by blast
qed

text \<open>
  Claim C4, as stated, fails on the number of forecast values: \<open>predict\<close> is called
  with the observation numbers \<open>nobs\<close> and \<open>nobs + train_delta\<close>, both included. With six
  monthly observations and \<open>train_delta = 2\<close> the forecast has three values, for May, June
  and July, the last of them one month past the end of the series.
\<close>

theorem forecast_length_counterexample:
  "train_date_freq ex_monthly 2 = Inr (Some (2020, 4, 1)) \<and>
   map_sum id snd (try_prediction est_zero ex_monthly 2 None (Some (2020, 4, 1)) (0, 0, 0) (0, 0, 0, 12)) =
     Inr [((2020, 5, 1), 0), ((2020, 6, 1), 0), ((2020, 7, 1), 0)] \<and>
   map_sum id (length \<circ> snd)
     (try_prediction est_zero ex_monthly 2 None (Some (2020, 4, 1)) (0, 0, 0) (0, 0, 0, 12)) \<noteq> Inr 2"
  by code_simp

text \<open>
  Claim C4, amended. Whenever fit and forecast succeed, \<open>train_delta\<close> is not negative,
  the sample has \<open>nobs\<close> observations, and the forecast has \<open>train_delta + 1\<close> values: the
  predictions for the observation numbers \<open>nobs\<close> to \<open>nobs + train_delta\<close>, labelled with
  the 1st to the \<open>(train_delta + 1)\<close>-th step of the index frequency after the last label of
  the sample. The score recorded in the row is computed from this forecast and
  \<open>data[-train_delta:]\<close>, which for a positive \<open>train_delta\<close> are the last \<open>train_delta\<close>
  observations (all of them when the series is shorter).
\<close>

theorem forecast_runs_one_step_past_the_window:
  assumes "try_prediction est data td start tdate p s = Inr (res, prediction)"
  shows "0 \<le> td \<and>
         nobs res = length (obs (loc_slice data start tdate)) \<and>
         length prediction = nat td + 1 \<and>
         map snd prediction = map (predicted res) [nobs res..<nobs res + nat td + 1] \<and>
         (\<exists>f. freq data = Some f \<and>
            map fst prediction =
              map (\<lambda>j. add_offset (fst (last (obs (loc_slice data start tdate))))
                         (mul_offset (int j + 1) f)) [0..<nat td + 1]) \<and>
         (0 < td \<longrightarrow> obs (slice_from data (- td)) = drop (length (obs data) - nat td) (obs data)) \<and>
         try_body est data td start tdate p s =
           Inr \<lparr>key = ARIMA p s (results.aic res)
                        (sum_series (pow2_series (sub_series prediction (obs (slice_from data (- td)))))),
                aic = results.aic res,
                mse = sum_series (pow2_series (sub_series prediction (obs (slice_from data (- td)))))\<rparr>"
proof -
  let ?args = "sarimax_call data start tdate p s"
  from assms have fit: "SARIMAX_fit est ?args = Inr res"
    and pr: "predict res (int (nobs res)) (int (nobs res) + td) = Inr prediction"
    by (auto simp: try_prediction_def split: sum.splits)
  from SARIMAX_fit_Inr [OF fit]
  have ne: "obs (endog ?args) \<noteq> []" and model: "model res = ?args"
    and n: "nobs res = length (obs (endog ?args))"
    by simp_all
  have endog: "endog ?args = loc_slice data start tdate"
    by (simp add: sarimax_call_def)
  have fr: "freq (loc_slice data start tdate) = freq data"
    by (simp add: loc_slice_def)
  from predict_out_of_sample [OF pr] n ne model
  obtain f where td: "0 \<le> td" and f: "freq (endog ?args) = Some f"
    and pred: "prediction = map (\<lambda>k. (add_offset (fst (last (obs (endog ?args))))
                                      (mul_offset (int (k - nobs res) + 1) f), predicted res k))
                           [nobs res..<nobs res + nat td + 1]"
    by auto
  have len: "length prediction = nat td + 1"
    unfolding pred by simp
  have vals: "map snd prediction = map (predicted res) [nobs res..<nobs res + nat td + 1]"
    unfolding pred by (simp add: comp_def)
  have "map fst prediction =
          map (\<lambda>k. add_offset (fst (last (obs (endog ?args)))) (mul_offset (int (k - nobs res) + 1) f))
            [nobs res..<nobs res + nat td + 1]"
    unfolding pred by (simp add: comp_def)
  also have "[nobs res..<nobs res + nat td + 1] = map (\<lambda>j. j + nobs res) [0..<nat td + 1]"
    using map_add_upt [of "nobs res" "nat td + 1"] by (simp add: add.commute)
  finally have labels: "map fst prediction =
              map (\<lambda>j. add_offset (fst (last (obs (loc_slice data start tdate))))
                         (mul_offset (int j + 1) f)) [0..<nat td + 1]"
    by (simp add: comp_def endog)
  have actual: "obs (slice_from data (- td)) = drop (length (obs data) - nat td) (obs data)" if "0 < td"
  proof -
    from that have "nat (max 0 (int (length (obs data)) - td)) = length (obs data) - nat td"
      by linarith
    with that show ?thesis
      by (simp add: slice_from_def Let_def)
  qed
  have body: "try_body est data td start tdate p s =
           Inr \<lparr>key = ARIMA p s (results.aic res)
                        (sum_series (pow2_series (sub_series prediction (obs (slice_from data (- td)))))),
                aic = results.aic res,
                mse = sum_series (pow2_series (sub_series prediction (obs (slice_from data (- td)))))\<rparr>"
    by (simp add: try_body_def assms Let_def)
  from td n endog len vals f fr labels actual body show ?thesis
    by auto
qed

theorem forecast_runs_one_step_past_the_window_witness:
  "try_prediction est_zero ex_monthly 2 None (Some (2020, 4, 1)) (0, 0, 0) (0, 0, 0, 12) =
     Inr (\<lparr>model = sarimax_call ex_monthly None (Some (2020, 4, 1)) (0, 0, 0) (0, 0, 0, 12),
           nobs = 4, aic = 0, predicted = \<lambda>k. 0\<rparr>,
          [((2020, 5, 1), 0), ((2020, 6, 1), 0), ((2020, 7, 1), 0)]) \<and>
   length [((2020, 5, 1), 0 :: real), ((2020, 6, 1), 0), ((2020, 7, 1), 0)] = nat 2 + 1 \<and>
   obs (slice_from ex_monthly (- 2)) = drop (length (obs ex_monthly) - nat 2) (obs ex_monthly)"
proof -
  note run = prediction_ex_monthly [of "(0, 0, 0)" "(0, 0, 0, 12)"]
  from forecast_runs_one_step_past_the_window [OF run] run
  show ?thesis by simp
qed

section \<open>The training cutoff and the arguments of every fit\<close>








section \<open>The recorded score\<close>

lemma scores_ex_monthly:
  "map mse (List.map_filter
     (\<lambda>xy. row_of (try_body est_zero ex_monthly 2 None (Some (2020, 4, 1)) (fst xy) (snd xy)))
     enumeration) = replicate 64 10"
  by code_simp

lemma forecast_and_actual_ex_monthly:
  "map_sum id snd (try_prediction est_zero ex_monthly 2 None (Some (2020, 4, 1)) (0, 0, 0) (0, 0, 0, 12)) =
     Inr [((2020, 5, 1), 0), ((2020, 6, 1), 0), ((2020, 7, 1), 0)] \<and>
   obs (slice_from ex_monthly (- 2)) = [((2020, 5, 1), 1), ((2020, 6, 1), 3)] \<and>
   mean [(0 - 1) ^ 2, (0 - 3) ^ 2] = 5"
  by code_simp

text \<open>
  Claim C1 says that the recorded score is the mean of the squared differences. On the
  six monthly observations, with \<open>train_delta = 2\<close> and an estimator that predicts 0, the
  forecast meets the last two observations, 1 and 3, on the labels of May and June. The
  squared differences are 1 and 9, their mean is 5, and every one of the 64 rows records
  their sum, 10.
\<close>

theorem recorded_score_is_the_sum_of_squares:
  "map_sum id (map mse \<circ> results_df) (find_optimal_pdq tie est_zero ex_monthly 2 None) =
     Inr (replicate 64 10) \<and>
   map_sum id snd (try_prediction est_zero ex_monthly 2 None (Some (2020, 4, 1)) (0, 0, 0) (0, 0, 0, 12)) =
     Inr [((2020, 5, 1), 0), ((2020, 6, 1), 0), ((2020, 7, 1), 0)] \<and>
   obs (slice_from ex_monthly (- 2)) = [((2020, 5, 1), 1), ((2020, 6, 1), 3)] \<and>
   mean [(0 - 1) ^ 2, (0 - 3) ^ 2] = 5"
proof -
  have "map_sum id (map mse \<circ> results_df) (find_optimal_pdq tie est_zero ex_monthly 2 None) =
          Inr (replicate 64 10)"
    unfolding find_optimal_pdq_eq [OF train_date_ex_monthly]
    using scores_ex_monthly by simp
  with forecast_and_actual_ex_monthly show ?thesis by (simp only: simp_thms)
qed

section \<open>What the handler prints\<close>

lemma lines_fail_100:
  "concat (map (\<lambda>xy. lines_of (try_body (est_fail_at ((1, 0, 0), (0, 1, 0, 12))) ex_monthly 2 None
                                 (Some (2020, 4, 1)) (fst xy) (snd xy))) enumeration) =
     [Exception_in [(0,0,0),(0,0,1),(0,1,0),(0,1,1),(1,0,0),(1,0,1),(1,1,0),(1,1,1)]
        [(0,0,0,12),(0,0,1,12),(0,1,0,12),(0,1,1,12),(1,0,0,12),(1,0,1,12),(1,1,0,12),(1,1,1,12)],
      Exception_text ''LinAlgError'']"
  by code_simp

lemma lines_fail_011:
  "concat (map (\<lambda>xy. lines_of (try_body (est_fail_at ((0, 1, 1), (1, 1, 1, 12))) ex_monthly 2 None
                                 (Some (2020, 4, 1)) (fst xy) (snd xy))) enumeration) =
     [Exception_in [(0,0,0),(0,0,1),(0,1,0),(0,1,1),(1,0,0),(1,0,1),(1,1,0),(1,1,1)]
        [(0,0,0,12),(0,0,1,12),(0,1,0,12),(0,1,1,12),(1,0,0,12),(1,0,1,12),(1,1,0,12),(1,1,1,12)],
      Exception_text ''LinAlgError'']"
  by code_simp

lemma rows_fail_100:
  "length (List.map_filter
     (\<lambda>xy. row_of (try_body (est_fail_at ((1, 0, 0), (0, 1, 0, 12))) ex_monthly 2 None
                      (Some (2020, 4, 1)) (fst xy) (snd xy))) enumeration) = 63"
  by code_simp

text \<open>
  Claim C7 says that the handler logs the orders of the failing attempt. An estimator
  that fails for the pair \<open>(1, 0, 0)\<close>, \<open>(0, 1, 0, 12)\<close> only makes the handler print the
  complete lists \<open>pdq\<close> and \<open>seasonal_pdq\<close> and then the exception; an estimator that fails
  for the pair \<open>(0, 1, 1)\<close>, \<open>(1, 1, 1, 12)\<close> only yields the very same two lines. The attempt
  is skipped without a retry all the same: the table has the 63 other rows, and four lines
  are printed in all.
\<close>

theorem exception_log_names_every_candidate:
  "map_sum id (take 2 \<circ> printed)
     (find_optimal_pdq tie (est_fail_at ((1, 0, 0), (0, 1, 0, 12))) ex_monthly 2 None) =
     Inr [Exception_in [(0,0,0),(0,0,1),(0,1,0),(0,1,1),(1,0,0),(1,0,1),(1,1,0),(1,1,1)]
            [(0,0,0,12),(0,0,1,12),(0,1,0,12),(0,1,1,12),(1,0,0,12),(1,0,1,12),(1,1,0,12),(1,1,1,12)],
          Exception_text ''LinAlgError''] \<and>
   map_sum id (take 2 \<circ> printed)
     (find_optimal_pdq tie (est_fail_at ((0, 1, 1), (1, 1, 1, 12))) ex_monthly 2 None) =
   map_sum id (take 2 \<circ> printed)
     (find_optimal_pdq tie (est_fail_at ((1, 0, 0), (0, 1, 0, 12))) ex_monthly 2 None) \<and>
   map_sum id (length \<circ> results_df)
     (find_optimal_pdq tie (est_fail_at ((1, 0, 0), (0, 1, 0, 12))) ex_monthly 2 None) = Inr 63 \<and>
   map_sum id (length \<circ> printed)
     (find_optimal_pdq tie (est_fail_at ((1, 0, 0), (0, 1, 0, 12))) ex_monthly 2 None) = Inr 4"
  unfolding find_optimal_pdq_eq [OF train_date_ex_monthly] lines_fail_100 lines_fail_011
  using rows_fail_100 by simp

section \<open>Rolling mean and rolling standard deviation\<close>

lemma length_window_at:
  assumes "i < length xs"
  shows "length (window_at xs w i) = min w (i + 1)"
  using assms by (simp add: window_at_def)

lemma count_from: "length (filter (\<lambda>i. w \<le> i + 1) [0..<n]) = n - (w - 1)"
  by (induction n) auto

lemma count_valid_map:
  assumes "\<And>i. i < n \<Longrightarrow> g i = None \<longleftrightarrow> i + 1 < w"
  shows "count_valid (map g [0..<n]) = n - (w - 1)"
proof -
  have "filter (\<lambda>i. g i \<noteq> None) [0..<n] = filter (\<lambda>i. w \<le> i + 1) [0..<n]"
    by (rule filter_cong) (use assms in auto)
  then have "length (filter (\<lambda>i. g i \<noteq> None) [0..<n]) = n - (w - 1)"
    by (simp only: count_from)
  moreover have "count_valid (map g [0..<n]) = length (filter (\<lambda>i. g i \<noteq> None) [0..<n])"
    unfolding count_valid_def by (simp only: length_filter_map comp_def)
  ultimately show ?thesis by (simp only:)
qed

lemma rolling_mean_None:
  assumes "i < length xs"
  shows "rolling_mean xs w ! i = None \<longleftrightarrow> i + 1 < w"
  using assms by (auto simp: rolling_mean_def Let_def length_window_at)

lemma rolling_std_None:
  assumes "i < length xs"
  shows "rolling_std xs w ! i = None \<longleftrightarrow> i + 1 < w \<or> w < 2"
  using assms by (auto simp: rolling_std_def rolling_var_def Let_def length_window_at)

lemma count_valid_rolling_mean: "count_valid (rolling_mean xs w) = length xs - (w - 1)"
  unfolding rolling_mean_def
  by (rule count_valid_map) (auto simp: Let_def length_window_at)

lemma count_valid_rolling_std:
  assumes "2 \<le> w"
  shows "count_valid (rolling_std xs w) = length xs - (w - 1)"
proof -
  have "rolling_std xs w =
          map (\<lambda>i. map_option sqrt
                 (let ws = window_at xs w i
                  in if length ws < w \<or> length ws < 2 then None
                     else Some (sum_list (map (\<lambda>x. (x - mean ws) ^ 2) ws) / real (length ws - 1))))
              [0..<length xs]"
    by (simp add: rolling_std_def rolling_var_def comp_def)
  also have "count_valid \<dots> = length xs - (w - 1)"
    by (rule count_valid_map) (use assms in \<open>auto simp: Let_def length_window_at\<close>)
  finally show ?thesis .
qed

lemma count_valid_rolling_std_1: "count_valid (rolling_std xs 1) = 0"
  by (auto simp: count_valid_def rolling_std_def rolling_var_def Let_def filter_empty_conv
        length_window_at)

text \<open>
  Claim C9, as stated, fails for the window width 1: the sample standard deviation of
  a single observation is missing, so the rolling standard deviation of three
  observations has no valid value, not three.
\<close>

theorem rolling_std_window_one_counterexample:
  "count_valid (rolling_std [1, 2, 3] 1) = 0 \<and>
   count_valid (rolling_std [1, 2, 3] 1) \<noteq> length [1, 2, 3 :: real] - 1 + 1"
  using count_valid_rolling_std_1 [of "[1, 2, 3]"] by simp

text \<open>
  Claim C9, amended. For a window width \<open>w\<close> with \<open>0 < w \<le> n\<close> the rolling mean has
  exactly \<open>n - w + 1\<close> valid values, the missing ones being those at the first \<open>w - 1\<close>
  positions. The same holds for the rolling standard deviation when \<open>2 \<le> w\<close>; for
  \<open>w = 1\<close> it has no valid value.
\<close>

theorem rolling_valid_counts:
  assumes "0 < w" and "w \<le> length xs"
  shows "count_valid (rolling_mean xs w) = length xs - w + 1 \<and>
         (\<forall>i<length xs. rolling_mean xs w ! i = None \<longleftrightarrow> i < w - 1) \<and>
         (2 \<le> w \<longrightarrow> count_valid (rolling_std xs w) = length xs - w + 1 \<and>
                    (\<forall>i<length xs. rolling_std xs w ! i = None \<longleftrightarrow> i < w - 1)) \<and>
         (w = 1 \<longrightarrow> count_valid (rolling_std xs w) = 0)"
proof -
  from assms have arith: "length xs - (w - 1) = length xs - w + 1" by simp
  have less: "i + 1 < w \<longleftrightarrow> i < w - 1" for i
    using assms(1) by auto
  have mean_count: "count_valid (rolling_mean xs w) = length xs - w + 1"
    by (simp only: count_valid_rolling_mean arith)
  have mean_missing: "\<forall>i<length xs. rolling_mean xs w ! i = None \<longleftrightarrow> i < w - 1"
    using assms(1) by (auto simp: rolling_mean_None)
  have std_count: "count_valid (rolling_std xs w) = length xs - w + 1" if "2 \<le> w"
    by (simp only: count_valid_rolling_std [OF that] arith)
  have std_missing: "\<forall>i<length xs. rolling_std xs w ! i = None \<longleftrightarrow> i < w - 1" if "2 \<le> w"
    using that by (auto simp: rolling_std_None)
  have std_one: "count_valid (rolling_std xs w) = 0" if "w = 1"
    unfolding that by (rule count_valid_rolling_std_1)
  from mean_count mean_missing std_count std_missing std_one show ?thesis
    by blast
qed

theorem rolling_valid_counts_witness:
  "(0::nat) < 2 \<and> 2 \<le> length [1, 2, 4, 8 :: real] \<and>
   count_valid (rolling_mean [1, 2, 4, 8] 2) = 3 \<and>
   count_valid (rolling_std [1, 2, 4, 8] 2) = 3 \<and>
   rolling_mean [1, 2, 4, 8] 2 ! 0 = None"
proof -
  have h1: "(0::nat) < 2" and h2: "2 \<le> length [1, 2, 4, 8 :: real]"
    by simp_all
  from rolling_valid_counts [OF h1 h2] show ?thesis
    by simp
qed

end
